theory Spec2Isabelle
  imports Main
begin

section \<open>The passkey page: \<^verbatim>\<open>frontend/src/template_passkey.ts\<close>\<close>

text \<open>
  The script reads five things of the page once (\<^verbatim>\<open>errors\<close>, \<^verbatim>\<open>retryButtonContainer\<close>,
  \<^verbatim>\<open>retryButton\<close>, \<^verbatim>\<open>form\<close>, \<^verbatim>\<open>formResponse\<close>), each of which may be missing, and
  \<^verbatim>\<open>run\<close> changes them. The page is a record of what \<^verbatim>\<open>run\<close> reads and writes:
  the children of \<^verbatim>\<open>#errors\<close>, the class list of the retry container, whether the retry
  button exists, the element with the id \<^verbatim>\<open>passkey-form\<close>, and the value of the response
  field. A missing element is \<open>None\<close> (or \<open>False\<close> for the button).

  \<^verbatim>\<open>run\<close> only checks that the element \<^verbatim>\<open>#passkey-form\<close> exists, and calls \<^verbatim>\<open>submit()\<close> on it
  inside the \<^verbatim>\<open>try\<close>. On a form the call submits it; \<open>CanSubmit n\<close> is a form that was
  submitted \<open>n\<close> times. On any other element the call throws (\<^verbatim>\<open>submit\<close> is not a function
  there, a \<^verbatim>\<open>TypeError\<close>); \<open>SubmitThrows ex\<close> is an element whose \<^verbatim>\<open>submit()\<close> throws \<open>ex\<close>.
\<close>

record error_div =
  div_classes :: "string list"
  inner_text :: string

text \<open>
  What is thrown inside the \<^verbatim>\<open>try\<close> is any JavaScript value. \<^verbatim>\<open>run\<close> asks of it whether
  it is an \<^verbatim>\<open>Error\<close>, its \<^verbatim>\<open>name\<close>, and its \<^verbatim>\<open>toString()\<close>.
\<close>

datatype thrown =
    ErrorValue (error_name: string) (error_toString: string)
  | OtherValue

datatype form_element = CanSubmit nat | SubmitThrows thrown

record document =
  errors :: "error_div list option"
  retryButtonContainer :: "string list option"
  retryButton :: bool
  form :: "form_element option"
  formResponse :: "string option"

datatype auth_outcome = Resolves string | Rejects thrown

text \<open>
  \<^verbatim>\<open>checkSupport\<close> and \<^verbatim>\<open>performAuthentication\<close> come from \<^verbatim>\<open>./utils/webauthn\<close>, and \<^verbatim>\<open>t\<close>
  from \<^verbatim>\<open>./i18n\<close>; \<^verbatim>\<open>options\<close> is \<^verbatim>\<open>window.WEBAUTHN_OPTIONS\<close>, \<open>None\<close> when the window or the
  property is missing. They are the parameters of the model.
\<close>

record env =
  options :: "string option"
  checkSupport :: bool
  performAuthentication :: "string \<Rightarrow> auth_outcome"
  translate :: "string \<Rightarrow> string"

datatype call = CheckSupport | PerformAuthentication string

datatype completion = Throws string | Returns

record run_result =
  completion :: completion
  doc :: document
  calls :: "call list"

definition setError :: "string \<Rightarrow> document \<Rightarrow> document" where
  "setError text d =
     d\<lparr>errors := map_option
          (\<lambda>children. children @
             [\<lparr>div_classes = [''text-critical'', ''font-medium''], inner_text = text\<rparr>])
          (errors d)\<rparr>"

definition remove_hidden :: "document \<Rightarrow> document" where
  "remove_hidden d =
     d\<lparr>retryButtonContainer :=
          map_option (filter (\<lambda>c. c \<noteq> ''hidden'')) (retryButtonContainer d)\<rparr>"

text \<open>
  The \<^verbatim>\<open>catch\<close> branch of \<^verbatim>\<open>run\<close>: the message of an \<^verbatim>\<open>Error\<close> whose name is not
  \<^verbatim>\<open>NotAllowedError\<close> is shown, and the retry container loses the class \<^verbatim>\<open>hidden\<close>.
\<close>

definition on_catch :: "thrown \<Rightarrow> document \<Rightarrow> document" where
  "on_catch ex d =
     remove_hidden
       (case ex of
          ErrorValue name str \<Rightarrow> if name \<noteq> ''NotAllowedError'' then setError str d else d
        | OtherValue \<Rightarrow> d)"

text \<open>
  \<^verbatim>\<open>!options\<close> holds for \<^verbatim>\<open>undefined\<close>, \<^verbatim>\<open>false\<close> and the empty string. A \<^verbatim>\<open>throw\<close> before the
  \<^verbatim>\<open>try\<close> rejects the promise of the async function and leaves the page as it was. Inside
  the \<^verbatim>\<open>try\<close>, the response is written to the field before \<^verbatim>\<open>submit()\<close> is called, so it
  stays there when \<^verbatim>\<open>submit()\<close> throws and the \<^verbatim>\<open>catch\<close> branch runs.
\<close>

definition run :: "env \<Rightarrow> document \<Rightarrow> run_result" where
  "run e d =
     (case options e of
        None \<Rightarrow>
          \<lparr>completion = Throws ''WEBAUTHN_OPTIONS is not defined'', doc = d, calls = []\<rparr>
      | Some opts \<Rightarrow>
          if opts = [] then
            \<lparr>completion = Throws ''WEBAUTHN_OPTIONS is not defined'', doc = d, calls = []\<rparr>
          else if errors d = None \<or> retryButtonContainer d = None \<or> \<not> retryButton d then
            \<lparr>completion = Throws ''Missing elements in document'', doc = d, calls = []\<rparr>
          else
            (case form d of
               None \<Rightarrow>
                 \<lparr>completion = Throws ''Missing elements in document'', doc = d, calls = []\<rparr>
             | Some form_el \<Rightarrow>
                 if formResponse d = None then
                   \<lparr>completion = Throws ''Missing elements in document'', doc = d,
                    calls = []\<rparr>
                 else
                   let d1 = d\<lparr>errors := Some []\<rparr> in
                   if \<not> checkSupport e then
                     \<lparr>completion = Returns,
                      doc = setError
                              (translate e ''frontend.account.passkeys.not_supported'') d1,
                      calls = [CheckSupport]\<rparr>
                   else
                     (case performAuthentication e opts of
                        Resolves response \<Rightarrow>
                          (let d2 = d1\<lparr>formResponse := Some response\<rparr> in
                           case form_el of
                             CanSubmit n \<Rightarrow>
                               \<lparr>completion = Returns,
                                doc = d2\<lparr>form := Some (CanSubmit (Suc n))\<rparr>,
                                calls = [CheckSupport, PerformAuthentication opts]\<rparr>
                           | SubmitThrows ex \<Rightarrow>
                               \<lparr>completion = Returns,
                                doc = on_catch ex d2,
                                calls = [CheckSupport, PerformAuthentication opts]\<rparr>)
                      | Rejects ex \<Rightarrow>
                          \<lparr>completion = Returns,
                           doc = on_catch ex d1,
                           calls = [CheckSupport, PerformAuthentication opts]\<rparr>)))"

section \<open>The \<^verbatim>\<open>UserEmail\<close> component\<close>

text \<open>
  A render yields a tree of elements. An element has a name, props and children; a prop
  is a string, a boolean, an event handler or \<^verbatim>\<open>undefined\<close>. The one prop of the source
  that holds an element, \<^verbatim>\<open>trigger\<close> of \<^verbatim>\<open>ConfirmationModal\<close>, is listed as a child
  named \<open>''trigger''\<close>. The handlers are the closures of the source, named after them, with
  the \<^verbatim>\<open>data.id\<close> they capture.
\<close>

datatype handler =
    OnRemoveClick string
  | OnSetPrimaryClick string
  | OnConfirm "handler option"
  | OnDeny

datatype pval = Str string | Bool bool | Handler handler | Undefined

datatype vnode = Text string | Element string "(string \<times> pval) list" "vnode list"

datatype effect = RemoveEmail string | SetPrimaryEmail string | OnRemoveCallback

text \<open>
  What running a handler does: \<^verbatim>\<open>onRemoveClick\<close> runs the \<^verbatim>\<open>removeEmail\<close> mutation and then
  the \<^verbatim>\<open>onRemove\<close> callback when the parent gave one; \<^verbatim>\<open>onConfirm\<close> calls \<^verbatim>\<open>onClick?.()\<close>;
  \<^verbatim>\<open>onDeny\<close> does nothing.
\<close>

fun effects :: "bool \<Rightarrow> handler \<Rightarrow> effect list" where
  "effects has_onRemove (OnRemoveClick i) =
     RemoveEmail i # (if has_onRemove then [OnRemoveCallback] else [])"
| "effects has_onRemove (OnSetPrimaryClick i) = [SetPrimaryEmail i]"
| "effects has_onRemove (OnConfirm None) = []"
| "effects has_onRemove (OnConfirm (Some h)) = effects has_onRemove h"
| "effects has_onRemove OnDeny = []"

record mutation_state =
  error :: "string option"
  fetching :: bool

record user_email_data =
  email_id :: string
  email :: string
  confirmedAt :: "string option"

record user_email_props =
  email_data :: user_email_data
  onRemove :: bool
  isPrimary :: "bool option"

definition opt_handler :: "handler option \<Rightarrow> pval" where
  "opt_handler h = (case h of None \<Rightarrow> Undefined | Some x \<Rightarrow> Handler x)"

definition opt_bool :: "bool option \<Rightarrow> pval" where
  "opt_bool b = (case b of None \<Rightarrow> Undefined | Some x \<Rightarrow> Bool x)"

definition DeleteButton ::
  "(string \<Rightarrow> string) \<Rightarrow> bool option \<Rightarrow> handler option \<Rightarrow> vnode" where
  "DeleteButton tr disabled onClick =
     Element ''Translation'' []
       [Element ''Tooltip''
          [(''label'', Str (tr ''frontend.user_email.delete_button_title''))]
          [Element ''IconButton''
             [(''type'', Str ''button''), (''disabled'', opt_bool disabled),
              (''className'', Str ''m-2''), (''onClick'', opt_handler onClick),
              (''size'', Str ''var(--cpd-space-8x)'')]
             [Element ''IconDelete'' [(''className'', Str ''userEmailDeleteIcon'')] []]]]"

text \<open>
  \<^verbatim>\<open>DeleteButtonWithConfirmation\<close> takes \<^verbatim>\<open>onClick\<close> out of its props and passes the rest
  to \<^verbatim>\<open>DeleteButton\<close>, so the button itself has no click handler: the handler sits in
  \<^verbatim>\<open>onConfirm\<close> of the modal.
\<close>

definition DeleteButtonWithConfirmation ::
  "(string \<Rightarrow> string) \<Rightarrow> bool option \<Rightarrow> handler option \<Rightarrow> vnode" where
  "DeleteButtonWithConfirmation tr disabled onClick =
     Element ''Fragment'' []
       [Element ''ConfirmationModal''
          [(''onDeny'', Handler OnDeny), (''onConfirm'', Handler (OnConfirm onClick))]
          [Element ''trigger'' [] [DeleteButton tr disabled None],
           Element ''Text'' []
             [Text (tr ''frontend.user_email.delete_button_confirmation_modal.body'')]]]"

definition truthy_bool :: "bool option \<Rightarrow> bool" where
  "truthy_bool b = (b = Some True)"

definition truthy_string :: "string option \<Rightarrow> bool" where
  "truthy_string s = (case s of None \<Rightarrow> False | Some x \<Rightarrow> x \<noteq> [])"

text \<open>
  \<^verbatim>\<open>UserEmail\<close> throws the error of either mutation (for the error boundary) before it
  renders anything. \<^verbatim>\<open>{c && <X/>}\<close> renders nothing when \<^verbatim>\<open>c\<close> is falsy.
\<close>

definition UserEmail ::
  "(string \<Rightarrow> string) \<Rightarrow> mutation_state \<Rightarrow> mutation_state \<Rightarrow> user_email_props
     \<Rightarrow> string + vnode" where
  "UserEmail tr setPrimaryResult removeResult props =
     (let data = email_data props; primary = truthy_bool (isPrimary props) in
      case error setPrimaryResult of Some err \<Rightarrow> Inl err
      | None \<Rightarrow>
     (case error removeResult of Some err \<Rightarrow> Inl err
      | None \<Rightarrow>
        Inr (Element ''Form.Root'' []
          [Element ''Form.Field'' [(''name'', Str ''email'')]
            ([Element ''Form.Label'' []
                [Text (if primary then tr ''frontend.user_email.primary_email''
                       else tr ''frontend.user_email.email'')],
              Element ''div'' [(''className'', Str ''flex items-center gap-2'')]
                ([Element ''Form.TextControl''
                    [(''type'', Str ''email''), (''readOnly'', Bool True),
                     (''value'', Str (email data)),
                     (''className'', Str ''userEmailField'')] []]
                 @ (if \<not> primary then
                      [DeleteButtonWithConfirmation tr (Some (fetching removeResult))
                         (Some (OnRemoveClick (email_id data)))]
                    else []))]
             @ (if primary then
                  [Element ''Form.HelpMessage'' []
                     [Text (tr ''frontend.user_email.cant_delete_primary'')]]
                else [])
             @ (if truthy_string (confirmedAt data) \<and> \<not> primary then
                  [Element ''Form.HelpMessage'' []
                     [Element ''button''
                        [(''type'', Str ''button''), (''className'', Str ''link''),
                         (''disabled'', Bool (fetching setPrimaryResult)),
                         (''onClick'', Handler (OnSetPrimaryClick (email_id data)))]
                        [Text (tr ''frontend.user_email.make_primary_button'')]]]
                else [])
             @ (if \<not> truthy_string (confirmedAt data) then
                  [Element ''Form.ErrorMessage'' []
                     [Text (tr ''frontend.user_email.not_verified''), Text '' |'', Text '' '',
                      Element ''Link''
                        [(''to'', Str ''/emails/$id/verify''),
                         (''params.id'', Str (email_id data))]
                        [Text (tr ''frontend.user_email.retry_button'')]]]
                else []))])))"

text \<open>Reading a rendered tree: the element names in it, and the handlers attached in it.\<close>

fun prop_handlers :: "(string \<times> pval) list \<Rightarrow> handler list" where
  "prop_handlers [] = []"
| "prop_handlers ((k, Handler h) # ps) = h # prop_handlers ps"
| "prop_handlers (p # ps) = prop_handlers ps"

fun names_of :: "vnode \<Rightarrow> string list" where
  "names_of (Text s) = []"
| "names_of (Element n ps cs) = n # concat (map names_of cs)"

fun handlers_of :: "vnode \<Rightarrow> handler list" where
  "handlers_of (Text s) = []"
| "handlers_of (Element n ps cs) = prop_handlers ps @ concat (map handlers_of cs)"

fun texts_of :: "vnode \<Rightarrow> string list" where
  "texts_of (Text s) = [s]"
| "texts_of (Element n ps cs) = concat (map texts_of cs)"

section \<open>The migration engine: duplicate collapse and the Batch Writer\<close>

text \<open>
  The migration engine (the package \<^verbatim>\<open>@vector-im/syn2mas\<close>) has only its
  \<^verbatim>\<open>package.json\<close> among the source files. Two parts of it are written here from the
  specification: the collapse of duplicate legacy rows in the transformation stage of an
  Entity Pipeline (section 4.4), and \<^verbatim>\<open>commit\<close> of the Batch Writer (section 4.5).
\<close>

text \<open>Modelled from the spec: the LegacyRecord, whose declaration is not among the source
  files, as the transformation stage of an Entity Pipeline receives it (extraction has
  filtered the tombstoned rows before). The spec names the legacy primary key, the natural
  key and the update timestamp; the rest of the row is its payload.\<close>

record legacy_record =
  legacy_pk :: nat
  natural_key :: string
  updated_at :: nat
  payload :: string

text \<open>Modelled from the spec: the TransformedRecord, whose declaration is not among the
  source files: a destination row. It carries its DestinationIdentifier, its entity type,
  the natural key and the content, and no legacy identifier.\<close>

record transformed_record =
  dest_id :: nat
  entity_type :: string
  row_key :: string
  content :: string

text \<open>Modelled from the spec: the tiebreak of the missing transformation stage between
  two duplicates, "latest update timestamp; ties broken by legacy primary key ascending".
  \<open>more_recent a b\<close> says that \<open>a\<close> is kept rather than \<open>b\<close>: its timestamp is later, or
  the timestamps are equal and its primary key is the smaller one.\<close>

definition more_recent :: "legacy_record \<Rightarrow> legacy_record \<Rightarrow> bool" where
  "more_recent a b \<longleftrightarrow>
     updated_at b < updated_at a
     \<or> (updated_at a = updated_at b \<and> legacy_pk a < legacy_pk b)"

text \<open>Modelled from the spec: one step of the missing duplicate collapse, "duplicate
  legacy rows sharing a natural key collapse to one destination row, keeping the most
  recent". The rows arrive one at a time; \<open>kept\<close> holds one row per natural key seen so
  far, and the arriving row replaces the one of its key when it is more recent.\<close>

fun keep_most_recent :: "legacy_record \<Rightarrow> legacy_record list \<Rightarrow> legacy_record list" where
  "keep_most_recent r [] = [r]"
| "keep_most_recent r (s # kept) =
     (if natural_key s = natural_key r
      then (if more_recent r s then r else s) # kept
      else s # keep_most_recent r kept)"

text \<open>Modelled from the spec: the missing duplicate collapse over the rows of one entity
  type, in the order the extraction streams them.\<close>

definition collapse_duplicates :: "legacy_record list \<Rightarrow> legacy_record list" where
  "collapse_duplicates rows = fold keep_most_recent rows []"

text \<open>Modelled from the spec: the missing transformation of one LegacyRecord into its
  destination row. The identifier is the Identity Mapper's for the row's legacy primary
  key; the mapping is the parameter \<open>ident\<close>.\<close>

definition transform :: "(nat \<Rightarrow> nat) \<Rightarrow> string \<Rightarrow> legacy_record \<Rightarrow> transformed_record" where
  "transform ident ety r =
     \<lparr>dest_id = ident (legacy_pk r), entity_type = ety,
      row_key = natural_key r, content = payload r\<rparr>"

text \<open>Modelled from the spec: the missing transformation stage of an Entity Pipeline,
  the duplicates collapsed and each surviving row transformed.\<close>

definition transform_rows ::
  "(nat \<Rightarrow> nat) \<Rightarrow> string \<Rightarrow> legacy_record list \<Rightarrow> transformed_record list" where
  "transform_rows ident ety rows = map (transform ident ety) (collapse_duplicates rows)"

text \<open>Modelled from the spec: the destination as the missing Batch Writer sees it, the
  rows of the destination tables and the Checkpoint of each entity type (the
  last-processed legacy ordering key; the committed-at timestamp is wall-clock time and is
  left out).\<close>

record destination =
  dest_rows :: "transformed_record list"
  checkpoints :: "string \<rightharpoonup> nat"

text \<open>Modelled from the spec: a Batch, whose declaration is not among the source files:
  the rows of one entity type that are committed in one transaction, with the legacy
  ordering key its commit advances the Checkpoint to.\<close>

record batch =
  batch_entity :: string
  batch_rows :: "transformed_record list"
  batch_last_key :: nat

text \<open>Modelled from the spec: the two errors of the missing \<^verbatim>\<open>commit\<close>, each naming the
  offending row. \<open>ConsistencyViolationError\<close> is the spec's; \<open>ConstraintViolationError\<close>
  stands for "any other constraint violation".\<close>

datatype error =
    ConsistencyViolationError transformed_record
  | ConstraintViolationError transformed_record

text \<open>Modelled from the spec: the error policy of an Entity Pipeline, whose declaration
  is not among the source files: skip-and-report, the default, or abort-on-first-error.\<close>

datatype policy = SkipAndReport | AbortOnFirstError

text \<open>Modelled from the spec: the CommitResult of a committed batch, whose declaration
  is not among the source files.\<close>

record commit_result =
  rows_written :: nat
  rows_already_applied :: nat
  rows_skipped :: "transformed_record list"

text \<open>Modelled from the spec: what the missing Batch Writer finds when it writes one
  row: it is inserted, it is already applied, its content disagrees with the existing
  row, or another constraint refuses it.\<close>

datatype row_outcome = Inserted | AlreadyApplied | ContentMismatch | Violation

text \<open>Modelled from the spec: one \<^verbatim>\<open>INSERT\<close>-with-conflict-handling of the missing Batch
  Writer. A row whose identifier is already in the table is a uniqueness conflict: the
  writer compares the existing row with the transformed row, and the row is already
  applied when they are equal and a content mismatch otherwise. A new row is inserted
  unless the destination's other constraints, the parameter \<open>accepts\<close>, refuse it.\<close>

definition write_row ::
  "(transformed_record list \<Rightarrow> transformed_record \<Rightarrow> bool) \<Rightarrow> transformed_record list
     \<Rightarrow> transformed_record \<Rightarrow> row_outcome \<times> transformed_record list" where
  "write_row accepts tbl t =
     (case find (\<lambda>x. dest_id x = dest_id t) tbl of
        Some existing \<Rightarrow>
          if existing = t then (AlreadyApplied, tbl) else (ContentMismatch, tbl)
      | None \<Rightarrow>
          if accepts tbl t then (Inserted, tbl @ [t]) else (Violation, tbl))"

text \<open>Modelled from the spec: the body of the transaction of the missing Batch Writer,
  the rows of the batch written in order. It stops at the first row that fails; the pair
  counts the rows written and the rows already applied.\<close>

fun write_rows ::
  "(transformed_record list \<Rightarrow> transformed_record \<Rightarrow> bool) \<Rightarrow> transformed_record list
     \<Rightarrow> transformed_record list \<Rightarrow> nat \<times> nat
     \<Rightarrow> error + transformed_record list \<times> nat \<times> nat" where
  "write_rows accepts tbl [] counts = Inr (tbl, counts)"
| "write_rows accepts tbl (t # ts) (w, a) =
     (case write_row accepts tbl t of
        (Inserted, tbl') \<Rightarrow> write_rows accepts tbl' ts (Suc w, a)
      | (AlreadyApplied, tbl') \<Rightarrow> write_rows accepts tbl' ts (w, Suc a)
      | (ContentMismatch, tbl') \<Rightarrow> Inl (ConsistencyViolationError t)
      | (Violation, tbl') \<Rightarrow> Inl (ConstraintViolationError t))"

lemma write_rows_offender:
  "write_rows accepts tbl ts counts = Inl (ConstraintViolationError t) \<Longrightarrow> t \<in> set ts"
proof (induction ts arbitrary: tbl counts)
  case Nil
  then show ?case by simp
next
  case (Cons x xs)
  obtain w a where c: "counts = (w, a)" by (cases counts)
  obtain out tbl' where wr: "write_row accepts tbl x = (out, tbl')"
    by (cases "write_row accepts tbl x")
  from Cons.prems show ?case
    unfolding c using wr Cons.IH by (cases out) auto
qed

text \<open>Modelled from the spec: \<^verbatim>\<open>commit(Batch)\<close> of the Batch Writer, whose code is not
  among the source files. The batch is written in one transaction; when it goes through,
  the rows and the Checkpoint of the entity type become durable together. A content
  mismatch is fatal: the transaction is rolled back and the error returned, whatever the
  policy. On another constraint violation the batch is rolled back and the offending row
  isolated; under \<open>AbortOnFirstError\<close> the error is returned, under \<open>SkipAndReport\<close> the
  row is recorded as skipped and the remaining rows are retried as a smaller batch. The
  result is the outcome and the destination afterwards.\<close>

function commit ::
  "(transformed_record list \<Rightarrow> transformed_record \<Rightarrow> bool) \<Rightarrow> policy \<Rightarrow> destination
     \<Rightarrow> batch \<Rightarrow> transformed_record list \<Rightarrow> (error + commit_result) \<times> destination" where
  "commit accepts pol st b skipped =
     (case write_rows accepts (dest_rows st) (batch_rows b) (0, 0) of
        Inr (tbl', w, a) \<Rightarrow>
          (Inr \<lparr>rows_written = w, rows_already_applied = a, rows_skipped = skipped\<rparr>,
           st\<lparr>dest_rows := tbl',
              checkpoints := (checkpoints st)(batch_entity b \<mapsto> batch_last_key b)\<rparr>)
      | Inl (ConsistencyViolationError t) \<Rightarrow> (Inl (ConsistencyViolationError t), st)
      | Inl (ConstraintViolationError t) \<Rightarrow>
          (case pol of
             AbortOnFirstError \<Rightarrow> (Inl (ConstraintViolationError t), st)
           | SkipAndReport \<Rightarrow>
               commit accepts pol st (b\<lparr>batch_rows := remove1 t (batch_rows b)\<rparr>)
                 (skipped @ [t])))"
  by pat_completeness auto
termination
proof (relation "measure (\<lambda>(accepts, pol, st, b, skipped). length (batch_rows b))")
  show "wf (measure (\<lambda>(accepts, pol, st, b, skipped). length (batch_rows b)))"
    by simp
next
  fix accepts :: "transformed_record list \<Rightarrow> transformed_record \<Rightarrow> bool"
    and pol :: policy and st :: destination and b :: batch
    and skipped :: "transformed_record list" and e t
  assume "write_rows accepts (dest_rows st) (batch_rows b) (0, 0) = Inl e"
    and "e = ConstraintViolationError t"
  then have "t \<in> set (batch_rows b)"
    using write_rows_offender by blast
  then have "length (remove1 t (batch_rows b)) < length (batch_rows b)"
    by (simp add: length_remove1) (cases "batch_rows b"; simp)
  then show "((accepts, pol, st, b\<lparr>batch_rows := remove1 t (batch_rows b)\<rparr>, skipped @ [t]),
              (accepts, pol, st, b, skipped))
             \<in> measure (\<lambda>(accepts, pol, st, b, skipped). length (batch_rows b))"
    by simp
qed

section \<open>Concrete inputs\<close>

definition page0 :: document where
  "page0 =
     \<lparr>errors = Some [\<lparr>div_classes = [''text-critical''], inner_text = ''stale''\<rparr>],
      retryButtonContainer = Some [''hidden'', ''mt-2''],
      retryButton = True, form = Some (CanSubmit 0), formResponse = Some []\<rparr>"

definition fresh_page :: document where
  "fresh_page =
     \<lparr>errors = Some [], retryButtonContainer = Some [''hidden''],
      retryButton = True, form = Some (CanSubmit 0), formResponse = Some []\<rparr>"

definition div_page :: document where
  "div_page =
     \<lparr>errors = Some [], retryButtonContainer = Some [''hidden''],
      retryButton = True,
      form = Some (SubmitThrows (ErrorValue ''TypeError'' ''TypeError: not a function'')),
      formResponse = Some []\<rparr>"

definition env_unsupported :: env where
  "env_unsupported =
     \<lparr>options = Some ''{challenge}'', checkSupport = False,
      performAuthentication = (\<lambda>opts. Resolves ''assertion''),
      translate = (\<lambda>key. key)\<rparr>"

definition env_resolves :: env where
  "env_resolves =
     \<lparr>options = Some ''{challenge}'', checkSupport = True,
      performAuthentication = (\<lambda>opts. Resolves ''assertion''),
      translate = (\<lambda>key. key)\<rparr>"

definition env_rejects :: "thrown \<Rightarrow> env" where
  "env_rejects ex =
     \<lparr>options = Some ''{challenge}'', checkSupport = True,
      performAuthentication = (\<lambda>opts. Rejects ex),
      translate = (\<lambda>key. key)\<rparr>"

definition idle :: mutation_state where
  "idle = \<lparr>error = None, fetching = False\<rparr>"

definition primary_props :: user_email_props where
  "primary_props =
     \<lparr>email_data =
        \<lparr>email_id = ''01'', email = ''alice@example.com'', confirmedAt = Some ''2024''\<rparr>,
      onRemove = True, isPrimary = Some True\<rparr>"

definition alice1 :: legacy_record where
  "alice1 = \<lparr>legacy_pk = 1, natural_key = ''alice'', updated_at = 5, payload = ''a1''\<rparr>"

definition alice2 :: legacy_record where
  "alice2 = \<lparr>legacy_pk = 2, natural_key = ''alice'', updated_at = 9, payload = ''a2''\<rparr>"

definition alice3 :: legacy_record where
  "alice3 = \<lparr>legacy_pk = 3, natural_key = ''alice'', updated_at = 9, payload = ''a3''\<rparr>"

definition bob4 :: legacy_record where
  "bob4 = \<lparr>legacy_pk = 4, natural_key = ''bob'', updated_at = 1, payload = ''b4''\<rparr>"

definition legacy_users :: "legacy_record list" where
  "legacy_users = [alice1, alice2, alice3, bob4]"

definition ident0 :: "nat \<Rightarrow> nat" where
  "ident0 pk = 100 + pk"

definition row_alice :: transformed_record where
  "row_alice = \<lparr>dest_id = 102, entity_type = ''users'', row_key = ''alice'', content = ''a2''\<rparr>"

definition row_alice_drifted :: transformed_record where
  "row_alice_drifted =
     \<lparr>dest_id = 102, entity_type = ''users'', row_key = ''alice'', content = ''a3''\<rparr>"

definition row_bob :: transformed_record where
  "row_bob = \<lparr>dest_id = 104, entity_type = ''users'', row_key = ''bob'', content = ''b4''\<rparr>"

definition row_empty :: transformed_record where
  "row_empty = \<lparr>dest_id = 105, entity_type = ''users'', row_key = ''carol'', content = []\<rparr>"

definition accepts0 :: "transformed_record list \<Rightarrow> transformed_record \<Rightarrow> bool" where
  "accepts0 tbl t \<longleftrightarrow> content t \<noteq> []"

definition dest0 :: destination where
  "dest0 = \<lparr>dest_rows = [row_alice], checkpoints = Map.empty\<rparr>"

definition batch_replay :: batch where
  "batch_replay =
     \<lparr>batch_entity = ''users'', batch_rows = [row_alice, row_bob], batch_last_key = 4\<rparr>"

definition batch_drifted :: batch where
  "batch_drifted =
     \<lparr>batch_entity = ''users'', batch_rows = [row_empty, row_bob, row_alice_drifted],
      batch_last_key = 5\<rparr>"

definition batch_mismatch :: batch where
  "batch_mismatch =
     \<lparr>batch_entity = ''users'', batch_rows = [row_bob, row_alice_drifted],
      batch_last_key = 5\<rparr>"

section \<open>The passkey page: what \<^verbatim>\<open>run\<close> does\<close>

lemma run_reaches_checkSupport:
  "CheckSupport \<in> set (calls (run e d)) \<longleftrightarrow>
     (\<exists>opts. options e = Some opts \<and> opts \<noteq> [] \<and> errors d \<noteq> None
        \<and> retryButtonContainer d \<noteq> None \<and> retryButton d \<and> form d \<noteq> None
        \<and> formResponse d \<noteq> None)"
  by (auto simp: run_def Let_def
      split: option.splits auth_outcome.splits form_element.splits)

lemma run_reaches_performAuthentication:
  "PerformAuthentication opts \<in> set (calls (run e d)) \<longleftrightarrow>
     (options e = Some opts \<and> opts \<noteq> [] \<and> errors d \<noteq> None
        \<and> retryButtonContainer d \<noteq> None \<and> retryButton d \<and> form d \<noteq> None
        \<and> formResponse d \<noteq> None \<and> checkSupport e)"
  by (auto simp: run_def Let_def
      split: option.splits auth_outcome.splits form_element.splits)

lemma run_guard_fails:
  "options e = None \<or> options e = Some [] \<or> errors d = None
     \<or> retryButtonContainer d = None \<or> \<not> retryButton d \<or> form d = None
     \<or> formResponse d = None \<Longrightarrow>
   (\<exists>msg. completion (run e d) = Throws msg) \<and> doc (run e d) = d \<and> calls (run e d) = []"
  by (auto simp: run_def Let_def split: option.splits)

text \<open>
  C8. On a page that has the five elements and with the options defined: when
  \<^verbatim>\<open>checkSupport\<close> returns false, \<^verbatim>\<open>run\<close> returns, the errors element holds exactly one
  child, the "not supported" message, the one call made is \<^verbatim>\<open>checkSupport\<close> (so
  \<^verbatim>\<open>performAuthentication\<close> is never called), and the rest of the page, the form and its
  response field among it, is as before. And for every page and environment: a run
  submits the form exactly when the options are defined, the five elements are there,
  \<^verbatim>\<open>checkSupport\<close> returns true, \<^verbatim>\<open>performAuthentication\<close> resolves and the element is a
  form; the form is then submitted once and its response field holds the response.
\<close>

theorem run_unsupported_never_authenticates:
  "(options e = Some opts \<and> opts \<noteq> [] \<and> errors d = Some children
      \<and> retryButtonContainer d = Some classes \<and> retryButton d \<and> form d = Some form_el
      \<and> formResponse d = Some old_value \<and> \<not> checkSupport e \<longrightarrow>
      run e d =
        \<lparr>completion = Returns,
         doc = d\<lparr>errors :=
                   Some [\<lparr>div_classes = [''text-critical'', ''font-medium''],
                          inner_text =
                            translate e ''frontend.account.passkeys.not_supported''\<rparr>]\<rparr>,
         calls = [CheckSupport]\<rparr>)
   \<and> (form (doc (run e d)) \<noteq> form d \<longleftrightarrow>
        (\<exists>opts' response n. options e = Some opts' \<and> opts' \<noteq> [] \<and> errors d \<noteq> None
           \<and> retryButtonContainer d \<noteq> None \<and> retryButton d
           \<and> form d = Some (CanSubmit n) \<and> formResponse d \<noteq> None \<and> checkSupport e
           \<and> performAuthentication e opts' = Resolves response))
   \<and> (\<forall>opts' response n.
         options e = Some opts' \<and> opts' \<noteq> [] \<and> errors d \<noteq> None
           \<and> retryButtonContainer d \<noteq> None \<and> retryButton d
           \<and> form d = Some (CanSubmit n) \<and> formResponse d \<noteq> None \<and> checkSupport e
           \<and> performAuthentication e opts' = Resolves response \<longrightarrow>
         run e d =
           \<lparr>completion = Returns,
            doc = d\<lparr>errors := Some [], form := Some (CanSubmit (Suc n)),
                    formResponse := Some response\<rparr>,
            calls = [CheckSupport, PerformAuthentication opts']\<rparr>)"
proof (intro conjI impI allI)
  assume "options e = Some opts \<and> opts \<noteq> [] \<and> errors d = Some children
      \<and> retryButtonContainer d = Some classes \<and> retryButton d \<and> form d = Some form_el
      \<and> formResponse d = Some old_value \<and> \<not> checkSupport e"
  then show "run e d =
        \<lparr>completion = Returns,
         doc = d\<lparr>errors :=
                   Some [\<lparr>div_classes = [''text-critical'', ''font-medium''],
                          inner_text =
                            translate e ''frontend.account.passkeys.not_supported''\<rparr>]\<rparr>,
         calls = [CheckSupport]\<rparr>"
    by (simp add: run_def Let_def setError_def)
next
  show "form (doc (run e d)) \<noteq> form d \<longleftrightarrow>
        (\<exists>opts' response n. options e = Some opts' \<and> opts' \<noteq> [] \<and> errors d \<noteq> None
           \<and> retryButtonContainer d \<noteq> None \<and> retryButton d
           \<and> form d = Some (CanSubmit n) \<and> formResponse d \<noteq> None \<and> checkSupport e
           \<and> performAuthentication e opts' = Resolves response)"
    by (auto simp: run_def Let_def setError_def remove_hidden_def on_catch_def
        split: option.splits auth_outcome.splits thrown.splits form_element.splits)
next
  fix opts' response n
  assume "options e = Some opts' \<and> opts' \<noteq> [] \<and> errors d \<noteq> None
           \<and> retryButtonContainer d \<noteq> None \<and> retryButton d
           \<and> form d = Some (CanSubmit n) \<and> formResponse d \<noteq> None \<and> checkSupport e
           \<and> performAuthentication e opts' = Resolves response"
  then show "run e d =
           \<lparr>completion = Returns,
            doc = d\<lparr>errors := Some [], form := Some (CanSubmit (Suc n)),
                    formResponse := Some response\<rparr>,
            calls = [CheckSupport, PerformAuthentication opts']\<rparr>"
    by (auto simp: run_def Let_def)
qed

theorem run_unsupported_never_authenticates_witness:
  "options env_unsupported = Some ''{challenge}''
   \<and> errors fresh_page = Some []
   \<and> retryButtonContainer fresh_page = Some [''hidden'']
   \<and> retryButton fresh_page
   \<and> form fresh_page = Some (CanSubmit 0)
   \<and> formResponse fresh_page = Some []
   \<and> \<not> checkSupport env_unsupported
   \<and> run env_unsupported fresh_page =
       \<lparr>completion = Returns,
        doc = \<lparr>errors =
                 Some [\<lparr>div_classes = [''text-critical'', ''font-medium''],
                        inner_text = ''frontend.account.passkeys.not_supported''\<rparr>],
               retryButtonContainer = Some [''hidden''], retryButton = True,
               form = Some (CanSubmit 0), formResponse = Some []\<rparr>,
        calls = [CheckSupport]\<rparr>
   \<and> errors (doc (run env_unsupported page0)) =
       Some [\<lparr>div_classes = [''text-critical'', ''font-medium''],
              inner_text = ''frontend.account.passkeys.not_supported''\<rparr>]
   \<and> checkSupport env_resolves
   \<and> performAuthentication env_resolves ''{challenge}'' = Resolves ''assertion''
   \<and> run env_resolves fresh_page =
       \<lparr>completion = Returns,
        doc = \<lparr>errors = Some [], retryButtonContainer = Some [''hidden''],
               retryButton = True, form = Some (CanSubmit 1),
               formResponse = Some ''assertion''\<rparr>,
        calls = [CheckSupport, PerformAuthentication ''{challenge}'']\<rparr>
   \<and> form (doc (run env_resolves fresh_page)) \<noteq> form fresh_page
   \<and> form (doc (run env_resolves div_page)) = form div_page"
  using
    run_unsupported_never_authenticates [of env_unsupported "''{challenge}''" fresh_page "[]"
      "[''hidden'']" "CanSubmit 0" "[]"]
    run_unsupported_never_authenticates [of env_unsupported "''{challenge}''" page0
      "[\<lparr>div_classes = [''text-critical''], inner_text = ''stale''\<rparr>]"
      "[''hidden'', ''mt-2'']" "CanSubmit 0" "[]"]
    run_unsupported_never_authenticates [of env_resolves "''{challenge}''" fresh_page "[]"
      "[''hidden'']" "CanSubmit 0" "[]"]
    run_unsupported_never_authenticates [of env_resolves "''{challenge}''" div_page "[]"
      "[''hidden'']" "SubmitThrows (ErrorValue ''TypeError'' ''TypeError: not a function'')"
      "[]"]
  by (simp add: env_unsupported_def env_resolves_def page0_def fresh_page_def div_page_def)

text \<open>
  C9. On a page that has the five elements and with the options defined: when
  \<^verbatim>\<open>checkSupport\<close> returns true and \<^verbatim>\<open>performAuthentication\<close> rejects with \<open>ex\<close>, \<^verbatim>\<open>run\<close>
  returns after the calls of \<^verbatim>\<open>checkSupport\<close> and \<^verbatim>\<open>performAuthentication\<close>; the errors
  element holds one child, the \<^verbatim>\<open>toString()\<close> of \<open>ex\<close>, when \<open>ex\<close> is an \<^verbatim>\<open>Error\<close> whose name is
  not \<^verbatim>\<open>NotAllowedError\<close>, and no child otherwise; the retry container has its classes
  without \<^verbatim>\<open>hidden\<close>; the form is not submitted and its response field is as before.
\<close>

theorem run_rejected_shows_retry:
  "options e = Some opts \<Longrightarrow> opts \<noteq> [] \<Longrightarrow> errors d = Some children \<Longrightarrow>
   retryButtonContainer d = Some classes \<Longrightarrow> retryButton d \<Longrightarrow> form d = Some form_el \<Longrightarrow>
   formResponse d = Some old_value \<Longrightarrow> checkSupport e \<Longrightarrow>
   performAuthentication e opts = Rejects ex \<Longrightarrow>
     completion (run e d) = Returns
     \<and> calls (run e d) = [CheckSupport, PerformAuthentication opts]
     \<and> errors (doc (run e d)) =
         Some (case ex of
                 ErrorValue name str \<Rightarrow>
                   if name \<noteq> ''NotAllowedError''
                   then [\<lparr>div_classes = [''text-critical'', ''font-medium''],
                          inner_text = str\<rparr>]
                   else []
               | OtherValue \<Rightarrow> [])
     \<and> (errors (doc (run e d)) \<noteq> Some [] \<longleftrightarrow>
          (\<exists>name str. ex = ErrorValue name str \<and> name \<noteq> ''NotAllowedError''))
     \<and> retryButtonContainer (doc (run e d)) = Some (filter (\<lambda>c. c \<noteq> ''hidden'') classes)
     \<and> ''hidden'' \<notin> set (filter (\<lambda>c. c \<noteq> ''hidden'') classes)
     \<and> retryButton (doc (run e d))
     \<and> form (doc (run e d)) = Some form_el
     \<and> formResponse (doc (run e d)) = Some old_value"
  by (auto simp: run_def Let_def setError_def remove_hidden_def on_catch_def
      split: thrown.splits)

theorem run_rejected_shows_retry_witness:
  "options (env_rejects (ErrorValue ''NotAllowedError'' ''cancelled'')) = Some ''{challenge}''
   \<and> checkSupport (env_rejects (ErrorValue ''NotAllowedError'' ''cancelled''))
   \<and> performAuthentication (env_rejects (ErrorValue ''NotAllowedError'' ''cancelled''))
        ''{challenge}'' = Rejects (ErrorValue ''NotAllowedError'' ''cancelled'')
   \<and> run (env_rejects (ErrorValue ''NotAllowedError'' ''cancelled'')) fresh_page =
       \<lparr>completion = Returns,
        doc = \<lparr>errors = Some [], retryButtonContainer = Some [], retryButton = True,
               form = Some (CanSubmit 0), formResponse = Some []\<rparr>,
        calls = [CheckSupport, PerformAuthentication ''{challenge}'']\<rparr>
   \<and> errors (doc (run (env_rejects (ErrorValue ''SecurityError'' ''SecurityError: no'')) page0))
       = Some [\<lparr>div_classes = [''text-critical'', ''font-medium''],
                inner_text = ''SecurityError: no''\<rparr>]
   \<and> retryButtonContainer
        (doc (run (env_rejects (ErrorValue ''SecurityError'' ''SecurityError: no'')) page0))
       = Some [''mt-2'']
   \<and> errors (doc (run (env_rejects OtherValue) page0)) = Some []
   \<and> retryButtonContainer (doc (run (env_rejects OtherValue) page0)) = Some [''mt-2'']
   \<and> form (doc (run (env_rejects OtherValue) page0)) = Some (CanSubmit 0)"
  using
    run_rejected_shows_retry [of "env_rejects (ErrorValue ''NotAllowedError'' ''cancelled'')"
      "''{challenge}''" fresh_page "[]" "[''hidden'']" "CanSubmit 0" "[]"
      "ErrorValue ''NotAllowedError'' ''cancelled''"]
    run_rejected_shows_retry
      [of "env_rejects (ErrorValue ''SecurityError'' ''SecurityError: no'')"
      "''{challenge}''" page0
      "[\<lparr>div_classes = [''text-critical''], inner_text = ''stale''\<rparr>]"
      "[''hidden'', ''mt-2'']" "CanSubmit 0" "[]"
      "ErrorValue ''SecurityError'' ''SecurityError: no''"]
    run_rejected_shows_retry [of "env_rejects OtherValue" "''{challenge}''" page0
      "[\<lparr>div_classes = [''text-critical''], inner_text = ''stale''\<rparr>]"
      "[''hidden'', ''mt-2'']" "CanSubmit 0" "[]" OtherValue]
  by (simp add: run_def Let_def on_catch_def setError_def remove_hidden_def env_rejects_def
      page0_def fresh_page_def)

lemma run_submit_throws:
  "options e = Some opts \<Longrightarrow> opts \<noteq> [] \<Longrightarrow> errors d = Some children \<Longrightarrow>
   retryButtonContainer d = Some classes \<Longrightarrow> retryButton d \<Longrightarrow>
   form d = Some (SubmitThrows ex) \<Longrightarrow> formResponse d = Some old_value \<Longrightarrow>
   checkSupport e \<Longrightarrow> performAuthentication e opts = Resolves response \<Longrightarrow>
     run e d =
       \<lparr>completion = Returns,
        doc = on_catch ex (d\<lparr>errors := Some [], formResponse := Some response\<rparr>),
        calls = [CheckSupport, PerformAuthentication opts]\<rparr>"
  by (simp add: run_def Let_def)

section \<open>\<^verbatim>\<open>UserEmail\<close>: the primary email has no delete control\<close>

lemma UserEmail_not_primary_has_delete:
  "isPrimary props \<noteq> Some True \<Longrightarrow> UserEmail tr sp rm props = Inr tree \<Longrightarrow>
     ''ConfirmationModal'' \<in> set (names_of tree)
     \<and> ''IconDelete'' \<in> set (names_of tree)
     \<and> OnConfirm (Some (OnRemoveClick (email_id (email_data props))))
          \<in> set (handlers_of tree)
     \<and> RemoveEmail (email_id (email_data props))
          \<in> set (effects (onRemove props)
                 (OnConfirm (Some (OnRemoveClick (email_id (email_data props))))))"
  by (auto simp: UserEmail_def Let_def truthy_bool_def DeleteButtonWithConfirmation_def
        DeleteButton_def opt_handler_def opt_bool_def split: option.splits)

text \<open>
  C10. A render of \<^verbatim>\<open>UserEmail\<close> with \<^verbatim>\<open>isPrimary\<close> true that yields a tree has none of
  the elements of the delete control in it (the fragment, modal and trigger of
  \<^verbatim>\<open>DeleteButtonWithConfirmation\<close>, the translation, tooltip, button and icon of
  \<^verbatim>\<open>DeleteButton\<close>); no
  handler attached anywhere in the tree runs the \<^verbatim>\<open>removeEmail\<close> mutation; and the tree
  shows the "cannot delete primary" help message.
\<close>

theorem UserEmail_primary_no_delete:
  "isPrimary props = Some True \<Longrightarrow> UserEmail tr sp rm props = Inr tree \<Longrightarrow>
     ''Fragment'' \<notin> set (names_of tree)
     \<and> ''ConfirmationModal'' \<notin> set (names_of tree)
     \<and> ''trigger'' \<notin> set (names_of tree)
     \<and> ''Translation'' \<notin> set (names_of tree)
     \<and> ''Tooltip'' \<notin> set (names_of tree)
     \<and> ''IconButton'' \<notin> set (names_of tree)
     \<and> ''IconDelete'' \<notin> set (names_of tree)
     \<and> (\<forall>h \<in> set (handlers_of tree). \<forall>i. RemoveEmail i \<notin> set (effects (onRemove props) h))
     \<and> tr ''frontend.user_email.cant_delete_primary'' \<in> set (texts_of tree)"
  by (auto simp: UserEmail_def Let_def truthy_bool_def split: option.splits if_splits)

theorem UserEmail_primary_no_delete_witness:
  "isPrimary primary_props = Some True
   \<and> UserEmail (\<lambda>key. key) idle idle primary_props =
       Inr (Element ''Form.Root'' []
         [Element ''Form.Field'' [(''name'', Str ''email'')]
           [Element ''Form.Label'' [] [Text ''frontend.user_email.primary_email''],
            Element ''div'' [(''className'', Str ''flex items-center gap-2'')]
              [Element ''Form.TextControl''
                 [(''type'', Str ''email''), (''readOnly'', Bool True),
                  (''value'', Str ''alice@example.com''),
                  (''className'', Str ''userEmailField'')] []],
            Element ''Form.HelpMessage'' []
              [Text ''frontend.user_email.cant_delete_primary'']]])
   \<and> ''IconDelete'' \<notin> set (names_of (projr (UserEmail (\<lambda>key. key) idle idle primary_props)))
   \<and> handlers_of (projr (UserEmail (\<lambda>key. key) idle idle primary_props)) = []"
  using UserEmail_primary_no_delete [of primary_props "\<lambda>key. key" idle idle
      "projr (UserEmail (\<lambda>key. key) idle idle primary_props)"]
  by (simp add: UserEmail_def Let_def truthy_bool_def truthy_string_def idle_def
      primary_props_def)

section \<open>The transformation stage: duplicates collapse to the most recent row\<close>


lemma more_recent_irrefl: "\<not> more_recent r r"
  by (simp add: more_recent_def)

lemma more_recent_trans: "more_recent a b \<Longrightarrow> more_recent b c \<Longrightarrow> more_recent a c"
  by (auto simp: more_recent_def)

lemma more_recent_total:
  "legacy_pk a \<noteq> legacy_pk b \<Longrightarrow> more_recent a b \<or> more_recent b a"
  by (auto simp: more_recent_def)

lemma keep_most_recent_keys:
  "natural_key ` set (keep_most_recent r kept) = insert (natural_key r) (natural_key ` set kept)"
  by (induction kept) auto

lemma keep_most_recent_distinct:
  "distinct (map natural_key kept) \<Longrightarrow> distinct (map natural_key (keep_most_recent r kept))"
proof (induction kept)
  case Nil
  then show ?case by simp
next
  case (Cons s kept)
  show ?case
  proof (cases "natural_key s = natural_key r")
    case True
    with Cons.prems show ?thesis by auto
  next
    case False
    have "natural_key s \<notin> natural_key ` set (keep_most_recent r kept)"
      using Cons.prems False by (auto simp: keep_most_recent_keys)
    with Cons False show ?thesis by simp
  qed
qed

lemma keep_most_recent_cases:
  assumes "distinct (map natural_key kept)" and "s \<in> set (keep_most_recent r kept)"
  shows "(s \<in> set kept \<and> natural_key s \<noteq> natural_key r)
       \<or> (s = r \<and> (\<forall>x \<in> set kept. natural_key x = natural_key r \<longrightarrow> more_recent r x))
       \<or> (s \<in> set kept \<and> natural_key s = natural_key r \<and> \<not> more_recent r s)"
  using assms
proof (induction kept)
  case Nil
  then show ?case by simp
next
  case (Cons k kept)
  show ?case
  proof (cases "natural_key k = natural_key r")
    case True
    have "natural_key k \<notin> natural_key ` set kept"
      using Cons.prems(1) by simp
    with True have nokey: "\<forall>x \<in> set kept. natural_key x \<noteq> natural_key r"
      by (metis image_eqI)
    from Cons.prems(2) True nokey show ?thesis
      by (auto split: if_splits)
  next
    case False
    with Cons show ?thesis by auto
  qed
qed

lemma collapse_duplicates_snoc:
  "collapse_duplicates (rows @ [r]) = keep_most_recent r (collapse_duplicates rows)"
  by (simp add: collapse_duplicates_def)

lemma collapse_duplicates_distinct: "distinct (map natural_key (collapse_duplicates rows))"
proof (induction rows rule: rev_induct)
  case Nil
  then show ?case by (simp add: collapse_duplicates_def)
next
  case (snoc r rows)
  then show ?case by (simp add: collapse_duplicates_snoc keep_most_recent_distinct)
qed

lemma collapse_duplicates_keys:
  "natural_key ` set (collapse_duplicates rows) = natural_key ` set rows"
proof (induction rows rule: rev_induct)
  case Nil
  then show ?case by (simp add: collapse_duplicates_def)
next
  case (snoc r rows)
  then show ?case by (simp add: collapse_duplicates_snoc keep_most_recent_keys)
qed

lemma collapse_duplicates_dominant:
  "s \<in> set (collapse_duplicates rows) \<Longrightarrow>
     s \<in> set rows \<and> (\<forall>x \<in> set rows. natural_key x = natural_key s \<longrightarrow> \<not> more_recent x s)"
proof (induction rows arbitrary: s rule: rev_induct)
  case Nil
  then show ?case by (simp add: collapse_duplicates_def)
next
  case (snoc r rows)
  let ?K = "collapse_duplicates rows"
  from snoc.prems have mem: "s \<in> set (keep_most_recent r ?K)"
    by (simp add: collapse_duplicates_snoc)
  from keep_most_recent_cases [OF collapse_duplicates_distinct mem]
  consider
    (other) "s \<in> set ?K" "natural_key s \<noteq> natural_key r"
  | (new) "s = r" "\<forall>x \<in> set ?K. natural_key x = natural_key r \<longrightarrow> more_recent r x"
  | (old) "s \<in> set ?K" "natural_key s = natural_key r" "\<not> more_recent r s"
    by blast
  then show ?case
  proof cases
    case other
    with snoc.IH [of s] show ?thesis by auto
  next
    case new
    have "\<not> more_recent x r" if x: "x \<in> set rows" "natural_key x = natural_key r" for x
    proof -
      from x have "natural_key r \<in> natural_key ` set rows"
        by (metis image_eqI)
      then have "natural_key r \<in> natural_key ` set ?K"
        by (simp add: collapse_duplicates_keys)
      then obtain k where k: "k \<in> set ?K" "natural_key k = natural_key r" by auto
      with new have rk: "more_recent r k" by simp
      from snoc.IH [OF k(1)] x k have "\<not> more_recent x k" by simp
      with rk show ?thesis using more_recent_trans by blast
    qed
    with new show ?thesis by (auto simp: more_recent_irrefl)
  next
    case old
    with snoc.IH [of s] show ?thesis by auto
  qed
qed

lemma filter_distinct_key:
  "distinct (map f xs) \<Longrightarrow> x \<in> set xs \<Longrightarrow> filter (\<lambda>y. f y = f x) xs = [x]"
proof (induction xs)
  case Nil
  then show ?case by simp
next
  case (Cons a xs)
  show ?case
  proof (cases "a = x")
    case True
    from Cons.prems have "f a \<notin> f ` set xs" by simp
    with True have "\<forall>y \<in> set xs. f y \<noteq> f x" by (metis image_eqI)
    then have "filter (\<lambda>y. f y = f x) xs = []" by (simp add: filter_empty_conv)
    with True show ?thesis by simp
  next
    case False
    with Cons show ?thesis by force
  qed
qed

lemma collapse_duplicates_survivor:
  assumes "r \<in> set rows"
  shows "\<exists>s. filter (\<lambda>x. natural_key x = natural_key r) (collapse_duplicates rows) = [s]
           \<and> s \<in> set rows \<and> natural_key s = natural_key r
           \<and> (\<forall>x \<in> set rows. natural_key x = natural_key r \<longrightarrow> \<not> more_recent x s)"
proof -
  from assms have "natural_key r \<in> natural_key ` set (collapse_duplicates rows)"
    by (simp add: collapse_duplicates_keys)
  then obtain s where s: "s \<in> set (collapse_duplicates rows)" "natural_key s = natural_key r"
    by auto
  have "filter (\<lambda>x. natural_key x = natural_key s) (collapse_duplicates rows) = [s]"
    using filter_distinct_key [OF collapse_duplicates_distinct s(1)] .
  with s collapse_duplicates_dominant [OF s(1)] show ?thesis by auto
qed

lemma filter_transform_rows:
  "filter (\<lambda>t. row_key t = k) (transform_rows ident ety rows)
     = map (transform ident ety) (filter (\<lambda>x. natural_key x = k) (collapse_duplicates rows))"
  by (simp add: transform_rows_def filter_map comp_def transform_def)

lemma survivor_unique:
  assumes inj: "inj_on legacy_pk (set rows)"
    and s: "s \<in> set rows" "\<forall>x \<in> set rows. natural_key x = k \<longrightarrow> \<not> more_recent x s" "natural_key s = k"
    and s': "s' \<in> set rows" "\<forall>x \<in> set rows. natural_key x = k \<longrightarrow> \<not> more_recent x s'" "natural_key s' = k"
  shows "s = s'"
proof (rule ccontr)
  assume "s \<noteq> s'"
  with inj s(1) s'(1) have "legacy_pk s \<noteq> legacy_pk s'" by (auto dest: inj_onD)
  then have "more_recent s s' \<or> more_recent s' s" by (rule more_recent_total)
  with s s' show False by blast
qed

lemma collapse_duplicates_order_independent:
  assumes inj: "inj_on legacy_pk (set rows)" and same: "set rows' = set rows"
  shows "filter (\<lambda>x. natural_key x = k) (collapse_duplicates rows')
       = filter (\<lambda>x. natural_key x = k) (collapse_duplicates rows)"
proof (cases "k \<in> natural_key ` set rows")
  case False
  then have "\<forall>x \<in> set (collapse_duplicates rows). natural_key x \<noteq> k"
    and "\<forall>x \<in> set (collapse_duplicates rows'). natural_key x \<noteq> k"
    using collapse_duplicates_keys [of rows] collapse_duplicates_keys [of rows'] same
    by force+
  then show ?thesis by (simp add: filter_empty_conv)
next
  case True
  then obtain r where r: "r \<in> set rows" "natural_key r = k" by auto
  from collapse_duplicates_survivor [OF r(1)] r(2) obtain s where
    s: "filter (\<lambda>x. natural_key x = k) (collapse_duplicates rows) = [s]" "s \<in> set rows"
       "natural_key s = k" "\<forall>x \<in> set rows. natural_key x = k \<longrightarrow> \<not> more_recent x s"
    by auto
  from r same have "r \<in> set rows'" by simp
  from collapse_duplicates_survivor [OF this] r(2) same obtain s' where
    s': "filter (\<lambda>x. natural_key x = k) (collapse_duplicates rows') = [s']" "s' \<in> set rows"
       "natural_key s' = k" "\<forall>x \<in> set rows. natural_key x = k \<longrightarrow> \<not> more_recent x s'"
    by auto
  have "s = s'" using survivor_unique [OF inj s(2) s(4) s(3) s'(2) s'(4) s'(3)] .
  with s s' show ?thesis by simp
qed

text \<open>
  C7. For every row \<open>r\<close> the transformation stage receives, exactly one destination row is
  emitted for the natural key of \<open>r\<close>: the transform of a received row \<open>s\<close> of that key
  such that every received row of the key has an earlier timestamp than \<open>s\<close>, or the same
  timestamp and a primary key that is not smaller. And the choice does not depend on the
  order of arrival: when the primary key identifies the rows, two inputs with the same
  rows emit the same row for every natural key.
\<close>

theorem duplicates_collapse_to_most_recent:
  "(r \<in> set rows \<longrightarrow>
      (\<exists>s. filter (\<lambda>t. row_key t = natural_key r) (transform_rows ident ety rows)
             = [transform ident ety s]
           \<and> s \<in> set rows \<and> natural_key s = natural_key r
           \<and> (\<forall>x \<in> set rows. natural_key x = natural_key r \<longrightarrow>
                 updated_at x < updated_at s
                 \<or> (updated_at x = updated_at s \<and> legacy_pk s \<le> legacy_pk x))))
   \<and> (inj_on legacy_pk (set rows) \<and> set rows' = set rows \<longrightarrow>
        filter (\<lambda>t. row_key t = k) (transform_rows ident ety rows')
          = filter (\<lambda>t. row_key t = k) (transform_rows ident ety rows))"
proof (intro conjI impI)
  assume "r \<in> set rows"
  from collapse_duplicates_survivor [OF this] obtain s where
    s: "filter (\<lambda>x. natural_key x = natural_key r) (collapse_duplicates rows) = [s]"
       "s \<in> set rows" "natural_key s = natural_key r"
       "\<forall>x \<in> set rows. natural_key x = natural_key r \<longrightarrow> \<not> more_recent x s"
    by auto
  have "filter (\<lambda>t. row_key t = natural_key r) (transform_rows ident ety rows)
          = [transform ident ety s]"
    by (simp add: filter_transform_rows s(1))
  moreover have "\<forall>x \<in> set rows. natural_key x = natural_key r \<longrightarrow>
      updated_at x < updated_at s \<or> (updated_at x = updated_at s \<and> legacy_pk s \<le> legacy_pk x)"
    using s(4) by (auto simp: more_recent_def)
  ultimately show "\<exists>s. filter (\<lambda>t. row_key t = natural_key r) (transform_rows ident ety rows)
             = [transform ident ety s]
           \<and> s \<in> set rows \<and> natural_key s = natural_key r
           \<and> (\<forall>x \<in> set rows. natural_key x = natural_key r \<longrightarrow>
                 updated_at x < updated_at s
                 \<or> (updated_at x = updated_at s \<and> legacy_pk s \<le> legacy_pk x))"
    using s(2,3) by blast
next
  assume "inj_on legacy_pk (set rows) \<and> set rows' = set rows"
  then have "filter (\<lambda>x. natural_key x = k) (collapse_duplicates rows')
       = filter (\<lambda>x. natural_key x = k) (collapse_duplicates rows)"
    using collapse_duplicates_order_independent by blast
  then show "filter (\<lambda>t. row_key t = k) (transform_rows ident ety rows')
          = filter (\<lambda>t. row_key t = k) (transform_rows ident ety rows)"
    by (simp add: filter_transform_rows)
qed

theorem duplicates_collapse_to_most_recent_witness:
  "alice1 \<in> set legacy_users
   \<and> transform_rows ident0 ''users'' legacy_users = [row_alice, row_bob]
   \<and> filter (\<lambda>t. row_key t = natural_key alice1) (transform_rows ident0 ''users'' legacy_users)
       = [transform ident0 ''users'' alice2]
   \<and> inj_on legacy_pk (set legacy_users)
   \<and> set (rev legacy_users) = set legacy_users
   \<and> filter (\<lambda>t. row_key t = ''alice'') (transform_rows ident0 ''users'' (rev legacy_users))
       = [row_alice]"
  using duplicates_collapse_to_most_recent
      [of alice1 legacy_users ident0 "''users''" "rev legacy_users" "''alice''"]
  by (auto simp add: transform_rows_def collapse_duplicates_def transform_def
      more_recent_def legacy_users_def alice1_def alice2_def alice3_def bob4_def ident0_def
      row_alice_def row_bob_def)

section \<open>The Batch Writer: a conflict is already applied or fatal\<close>


lemma write_row_conflict:
  "find (\<lambda>x. dest_id x = dest_id t) tbl = Some ex \<Longrightarrow>
     write_row accepts tbl t = (if ex = t then AlreadyApplied else ContentMismatch, tbl)"
  by (simp add: write_row_def)

lemma write_row_extends: "write_row accepts tbl t = (out, tbl') \<Longrightarrow> \<exists>new. tbl' = tbl @ new"
  by (auto simp: write_row_def split: option.splits if_splits)

lemma find_append_Some: "find P xs = Some x \<Longrightarrow> find P (xs @ ys) = Some x"
  by (induction xs) (auto split: if_splits)

lemma find_append_None: "find P (xs @ ys) = None \<Longrightarrow> find P xs = None"
  by (induction xs) (auto split: if_splits)

lemma write_rows_append:
  "write_rows accepts tbl (pre @ rest) counts =
     (case write_rows accepts tbl pre counts of
        Inl e \<Rightarrow> Inl e
      | Inr (tbl1, counts1) \<Rightarrow> write_rows accepts tbl1 rest counts1)"
proof (induction pre arbitrary: tbl counts)
  case Nil
  then show ?case by simp
next
  case (Cons x xs)
  obtain w a where c: "counts = (w, a)" by (cases counts)
  obtain out tbl' where wr: "write_row accepts tbl x = (out, tbl')"
    by (cases "write_row accepts tbl x")
  show ?case unfolding c using wr Cons.IH by (cases out) auto
qed

lemma write_rows_mismatch_fails:
  "t \<in> set ts \<Longrightarrow> find (\<lambda>x. dest_id x = dest_id t) tbl = Some ex \<Longrightarrow> ex \<noteq> t \<Longrightarrow>
     \<exists>e. write_rows accepts tbl ts counts = Inl e"
proof (induction ts arbitrary: tbl counts)
  case Nil
  then show ?case by simp
next
  case (Cons x xs)
  obtain w a where c: "counts = (w, a)" by (cases counts)
  obtain out tbl' where wr: "write_row accepts tbl x = (out, tbl')"
    by (cases "write_row accepts tbl x")
  show ?case
  proof (cases "x = t")
    case True
    with Cons.prems wr have "out = ContentMismatch"
      by (simp add: write_row_conflict)
    with wr show ?thesis unfolding c by simp
  next
    case False
    with Cons.prems have mem: "t \<in> set xs" by simp
    from write_row_extends [OF wr] obtain new where "tbl' = tbl @ new" ..
    with Cons.prems have "find (\<lambda>x. dest_id x = dest_id t) tbl' = Some ex"
      by (simp add: find_append_Some)
    from Cons.IH [OF mem this Cons.prems(3)] show ?thesis
      unfolding c using wr by (cases out) auto
  qed
qed

lemma write_rows_violation_is_new:
  "write_rows accepts tbl ts counts = Inl (ConstraintViolationError t) \<Longrightarrow>
     find (\<lambda>x. dest_id x = dest_id t) tbl = None"
proof (induction ts arbitrary: tbl counts)
  case Nil
  then show ?case by simp
next
  case (Cons x xs)
  obtain w a where c: "counts = (w, a)" by (cases counts)
  obtain out tbl' where wr: "write_row accepts tbl x = (out, tbl')"
    by (cases "write_row accepts tbl x")
  from write_row_extends [OF wr] obtain new where new: "tbl' = tbl @ new" ..
  show ?case
  proof (cases out)
    case Inserted
    with Cons.prems wr c have "write_rows accepts tbl' xs (Suc w, a) = Inl (ConstraintViolationError t)"
      by simp
    from Cons.IH [OF this] new show ?thesis by (simp add: find_append_None)
  next
    case AlreadyApplied
    with Cons.prems wr c have "write_rows accepts tbl' xs (w, Suc a) = Inl (ConstraintViolationError t)"
      by simp
    from Cons.IH [OF this] new show ?thesis by (simp add: find_append_None)
  next
    case ContentMismatch
    with Cons.prems wr c show ?thesis by simp
  next
    case Violation
    with Cons.prems wr c have "x = t" by simp
    with wr Violation show ?thesis
      by (auto simp: write_row_def split: option.splits if_splits)
  qed
qed

lemma write_rows_consistency_offender:
  "write_rows accepts tbl ts counts = Inl (ConsistencyViolationError t) \<Longrightarrow> t \<in> set ts"
proof (induction ts arbitrary: tbl counts)
  case Nil
  then show ?case by simp
next
  case (Cons x xs)
  obtain w a where c: "counts = (w, a)" by (cases counts)
  obtain out tbl' where wr: "write_row accepts tbl x = (out, tbl')"
    by (cases "write_row accepts tbl x")
  from Cons.prems show ?case
    unfolding c using wr Cons.IH by (cases out) auto
qed

lemma commit_rolls_back: "fst (commit accepts pol st b skipped) = Inl e \<Longrightarrow>
    snd (commit accepts pol st b skipped) = st"
proof (induction accepts pol st b skipped rule: commit.induct)
  case (1 accepts pol st b skipped)
  show ?case
  proof (cases "write_rows accepts (dest_rows st) (batch_rows b) (0, 0)")
    case (Inr ok)
    with "1.prems" show ?thesis by (auto split: prod.splits)
  next
    case (Inl err)
    show ?thesis
    proof (cases err)
      case (ConsistencyViolationError t)
      with Inl show ?thesis by simp
    next
      case (ConstraintViolationError t)
      show ?thesis
      proof (cases pol)
        case AbortOnFirstError
        with Inl ConstraintViolationError show ?thesis by simp
      next
        case SkipAndReport
        with Inl ConstraintViolationError "1.IH" [OF Inl ConstraintViolationError SkipAndReport] "1.prems"
        show ?thesis by simp
      qed
    qed
  qed
qed

lemma commit_mismatch_fatal:
  "t \<in> set (batch_rows b) \<Longrightarrow>
   find (\<lambda>x. dest_id x = dest_id t) (dest_rows st) = Some ex \<Longrightarrow> ex \<noteq> t \<Longrightarrow>
     snd (commit accepts pol st b skipped) = st
     \<and> (\<exists>e. fst (commit accepts pol st b skipped) = Inl e)
     \<and> (pol = SkipAndReport \<longrightarrow>
          (\<exists>t' \<in> set (batch_rows b). fst (commit accepts pol st b skipped) = Inl (ConsistencyViolationError t')))"
proof (induction accepts pol st b skipped rule: commit.induct)
  case (1 accepts pol st b skipped)
  from write_rows_mismatch_fails [OF "1.prems"]
  obtain err where Inl: "write_rows accepts (dest_rows st) (batch_rows b) (0, 0) = Inl err"
    by blast
  show ?case
  proof (cases err)
    case (ConsistencyViolationError t')
    with Inl write_rows_consistency_offender [of accepts "dest_rows st" "batch_rows b" "(0,0)" t']
    show ?thesis by simp
  next
    case (ConstraintViolationError t')
    show ?thesis
    proof (cases pol)
      case AbortOnFirstError
      with Inl ConstraintViolationError show ?thesis by simp
    next
      case SkipAndReport
      from Inl ConstraintViolationError
      have "find (\<lambda>x. dest_id x = dest_id t') (dest_rows st) = None"
        using write_rows_violation_is_new by blast
      with "1.prems" have "t' \<noteq> t" by auto
      with "1.prems" have mem: "t \<in> set (batch_rows (b\<lparr>batch_rows := remove1 t' (batch_rows b)\<rparr>))"
        by simp
      from "1.IH" [OF Inl ConstraintViolationError SkipAndReport mem "1.prems"(2,3)]
      have IH: "snd (commit accepts pol st (b\<lparr>batch_rows := remove1 t' (batch_rows b)\<rparr>) (skipped @ [t'])) = st"
        "\<exists>t''\<in>set (remove1 t' (batch_rows b)).
            fst (commit accepts pol st (b\<lparr>batch_rows := remove1 t' (batch_rows b)\<rparr>) (skipped @ [t'])) = Inl (ConsistencyViolationError t'')"
        using SkipAndReport by auto
      have eq: "commit accepts pol st b skipped
             = commit accepts pol st (b\<lparr>batch_rows := remove1 t' (batch_rows b)\<rparr>) (skipped @ [t'])"
        using Inl ConstraintViolationError SkipAndReport by simp
      from IH(2) obtain t'' where "t'' \<in> set (batch_rows b)"
        "fst (commit accepts pol st (b\<lparr>batch_rows := remove1 t' (batch_rows b)\<rparr>) (skipped @ [t'])) = Inl (ConsistencyViolationError t'')"
        using notin_set_remove1 by fastforce
      with IH(1) show ?thesis unfolding eq by auto
    qed
  qed
qed


text \<open>
  C5. When the transaction of \<^verbatim>\<open>commit\<close> reaches a row \<open>t\<close> of the batch whose identifier
  is already in the destination, with \<open>ex\<close> the existing row: the row is treated as already
  applied exactly when \<open>ex\<close> equals \<open>t\<close>; then the transaction goes on with the table
  unchanged and one more row counted as already applied; otherwise \<^verbatim>\<open>commit\<close> returns
  \<open>ConsistencyViolationError\<close> naming \<open>t\<close> and the destination is as before the batch,
  under either policy. And a batch that holds a row whose content disagrees with the
  destination is never committed: \<^verbatim>\<open>commit\<close> returns an error and the destination is as
  before, and under the skip-and-report policy the error is a \<open>ConsistencyViolationError\<close>
  (the row is not among the skipped ones).
\<close>

theorem commit_conflict_applied_or_fatal:
  "(batch_rows b = pre @ t # post
      \<and> write_rows accepts (dest_rows st) pre (0, 0) = Inr (tbl1, w, a)
      \<and> find (\<lambda>x. dest_id x = dest_id t) tbl1 = Some ex \<longrightarrow>
        (write_row accepts tbl1 t = (AlreadyApplied, tbl1) \<longleftrightarrow> ex = t)
        \<and> (ex = t \<longrightarrow>
              write_rows accepts (dest_rows st) (pre @ [t]) (0, 0) = Inr (tbl1, w, Suc a))
        \<and> (ex \<noteq> t \<longrightarrow>
              commit accepts pol st b skipped = (Inl (ConsistencyViolationError t), st)))
   \<and> (t \<in> set (batch_rows b)
      \<and> find (\<lambda>x. dest_id x = dest_id t) (dest_rows st) = Some ex \<and> ex \<noteq> t \<longrightarrow>
        snd (commit accepts pol st b skipped) = st
        \<and> (\<exists>e. fst (commit accepts pol st b skipped) = Inl e)
        \<and> (pol = SkipAndReport \<longrightarrow>
              (\<exists>t' \<in> set (batch_rows b).
                 fst (commit accepts pol st b skipped) = Inl (ConsistencyViolationError t'))))"
proof (intro conjI impI)
  assume h: "batch_rows b = pre @ t # post
      \<and> write_rows accepts (dest_rows st) pre (0, 0) = Inr (tbl1, w, a)
      \<and> find (\<lambda>x. dest_id x = dest_id t) tbl1 = Some ex"
  show "write_row accepts tbl1 t = (AlreadyApplied, tbl1) \<longleftrightarrow> ex = t"
    using h by (simp add: write_row_conflict)
  show "write_rows accepts (dest_rows st) (pre @ [t]) (0, 0) = Inr (tbl1, w, Suc a)"
    if "ex = t"
    using that h by (simp add: write_rows_append write_row_conflict)
  show "commit accepts pol st b skipped = (Inl (ConsistencyViolationError t), st)"
    if "ex \<noteq> t"
  proof -
    have "write_rows accepts (dest_rows st) (batch_rows b) (0, 0)
            = Inl (ConsistencyViolationError t)"
      using that h by (simp add: write_rows_append write_row_conflict)
    then show ?thesis by simp
  qed
next
  assume h: "t \<in> set (batch_rows b)
      \<and> find (\<lambda>x. dest_id x = dest_id t) (dest_rows st) = Some ex \<and> ex \<noteq> t"
  then have m: "t \<in> set (batch_rows b)"
    "find (\<lambda>x. dest_id x = dest_id t) (dest_rows st) = Some ex" "ex \<noteq> t"
    by simp_all
  note fatal = commit_mismatch_fatal [OF m, of accepts pol skipped]
  show "snd (commit accepts pol st b skipped) = st"
    using fatal by blast
  show "\<exists>e. fst (commit accepts pol st b skipped) = Inl e"
    using fatal by blast
  show "\<exists>t' \<in> set (batch_rows b).
           fst (commit accepts pol st b skipped) = Inl (ConsistencyViolationError t')"
    if "pol = SkipAndReport"
    using fatal that by blast
qed

theorem commit_conflict_applied_or_fatal_witness:
  "batch_rows batch_replay = [] @ row_alice # [row_bob]
   \<and> write_rows accepts0 (dest_rows dest0) [] (0, 0) = Inr ([row_alice], 0, 0)
   \<and> find (\<lambda>x. dest_id x = dest_id row_alice) [row_alice] = Some row_alice
   \<and> write_row accepts0 [row_alice] row_alice = (AlreadyApplied, [row_alice])
   \<and> write_rows accepts0 (dest_rows dest0) [row_alice] (0, 0) = Inr ([row_alice], 0, Suc 0)
   \<and> commit accepts0 AbortOnFirstError dest0 batch_replay [] =
       (Inr \<lparr>rows_written = 1, rows_already_applied = 1, rows_skipped = []\<rparr>,
        \<lparr>dest_rows = [row_alice, row_bob], checkpoints = [''users'' \<mapsto> 4]\<rparr>)
   \<and> batch_rows batch_mismatch = [row_bob] @ row_alice_drifted # []
   \<and> write_rows accepts0 (dest_rows dest0) [row_bob] (0, 0) = Inr ([row_alice, row_bob], 1, 0)
   \<and> find (\<lambda>x. dest_id x = dest_id row_alice_drifted) [row_alice, row_bob] = Some row_alice
   \<and> commit accepts0 AbortOnFirstError dest0 batch_mismatch [] =
       (Inl (ConsistencyViolationError row_alice_drifted), dest0)
   \<and> row_alice_drifted \<in> set (batch_rows batch_drifted)
   \<and> find (\<lambda>x. dest_id x = dest_id row_alice_drifted) (dest_rows dest0) = Some row_alice
   \<and> row_alice \<noteq> row_alice_drifted
   \<and> commit accepts0 SkipAndReport dest0 batch_drifted [] =
       (Inl (ConsistencyViolationError row_alice_drifted), dest0)
   \<and> commit accepts0 AbortOnFirstError dest0 batch_drifted [] =
       (Inl (ConstraintViolationError row_empty), dest0)"
  using
    commit_conflict_applied_or_fatal [of batch_replay "[]" row_alice "[row_bob]" accepts0
      dest0 "[row_alice]" 0 0 row_alice AbortOnFirstError "[]"]
    commit_conflict_applied_or_fatal [of batch_mismatch "[row_bob]" row_alice_drifted "[]"
      accepts0 dest0 "[row_alice, row_bob]" 1 0 row_alice AbortOnFirstError "[]"]
    commit_conflict_applied_or_fatal [of batch_drifted "[row_empty, row_bob]"
      row_alice_drifted "[]" accepts0 dest0 "[row_alice]" 0 0 row_alice SkipAndReport "[]"]
  by (simp add: write_row_def accepts0_def dest0_def batch_replay_def batch_drifted_def
      batch_mismatch_def
      row_alice_def row_alice_drifted_def row_bob_def row_empty_def)

end
